theory Spec2Isabelle
  imports Complex_Main "HOL-Library.Multiset"
begin

section \<open>Route optimizer of the logistics MVP (app/optimizer.py)\<close>

text \<open>
  The Python module is embedded function by function. Python floats are read as real
  numbers (no rounding error, no NaN, no infinity apart from the initial
  \<open>float("inf")\<close> of the nearest-neighbour scan, which is an absent best value);
  Python ints are \<open>int\<close>; a raised exception is the \<open>Inl\<close> branch of a sum.
\<close>

subsection \<open>Data model\<close>

datatype error = ValueError | TypeError | IndexError

type_synonym LatLng = "real \<times> real"

text \<open>\<open>Stop = Tuple[str, float, float, Optional[str], int, Optional[str], Optional[str]]\<close>:
  id, lat, lng, name, demand, tw_start, tw_end.\<close>

type_synonym Stop =
  "string \<times> real \<times> real \<times> string option \<times> int \<times> string option \<times> string option"

fun stop_id :: "Stop \<Rightarrow> string" where
  "stop_id (sid, lat, lng, name, demand, tws, twe) = sid"

fun stop_lat :: "Stop \<Rightarrow> real" where
  "stop_lat (sid, lat, lng, name, demand, tws, twe) = lat"

fun stop_lng :: "Stop \<Rightarrow> real" where
  "stop_lng (sid, lat, lng, name, demand, tws, twe) = lng"

fun stop_name :: "Stop \<Rightarrow> string option" where
  "stop_name (sid, lat, lng, name, demand, tws, twe) = name"

fun stop_demand :: "Stop \<Rightarrow> int" where
  "stop_demand (sid, lat, lng, name, demand, tws, twe) = demand"

fun stop_tw_start :: "Stop \<Rightarrow> string option" where
  "stop_tw_start (sid, lat, lng, name, demand, tws, twe) = tws"

fun stop_tw_end :: "Stop \<Rightarrow> string option" where
  "stop_tw_end (sid, lat, lng, name, demand, tws, twe) = twe"

text \<open>The pair \<open>(s[1], s[2])\<close> that the code builds wherever it measures a distance.\<close>

definition coords :: "Stop \<Rightarrow> LatLng" where
  "coords s = (stop_lat s, stop_lng s)"

text \<open>The dictionary \<open>{"id", "lat", "lng", "name", "demand"}\<close> appended to a route.\<close>

record route_entry =
  entry_id :: string
  entry_lat :: real
  entry_lng :: real
  entry_name :: "string option"
  entry_demand :: int

definition stop_entry :: "Stop \<Rightarrow> route_entry" where
  "stop_entry s =
     \<lparr>entry_id = stop_id s, entry_lat = stop_lat s, entry_lng = stop_lng s,
      entry_name = stop_name s, entry_demand = stop_demand s\<rparr>"

text \<open>The dictionary returned by \<open>optimize_routes\<close>; the key \<open>note\<close> is optional.\<close>

record routing_result =
  engine :: string
  routes :: "route_entry list list"
  total_miles :: real
  baseline_miles :: real
  savings_pct :: real
  result_note :: "string option"

subsection \<open>Numeric helpers of Python\<close>

text \<open>\<open>round(x)\<close>: to the nearest integer, a tie to the even one.\<close>

definition py_round :: "real \<Rightarrow> int" where
  "py_round x =
     (let f = \<lfloor>x\<rfloor>; r = x - of_int f
      in if r < 1 / 2 then f else if 1 / 2 < r then f + 1
         else if even f then f else f + 1)"

text \<open>\<open>round(x, 2)\<close>.\<close>

definition py_round2 :: "real \<Rightarrow> real" where
  "py_round2 x = of_int (py_round (x * 100)) / 100"

text \<open>\<open>int(x)\<close> of a float: truncation towards zero.\<close>

definition py_trunc :: "real \<Rightarrow> int" where
  "py_trunc x = (if 0 \<le> x then \<lfloor>x\<rfloor> else \<lceil>x\<rceil>)"

subsection \<open>Geodesy\<close>

definition MILES_PER_KM :: real where
  "MILES_PER_KM = 621371 / 1000000"

definition radians :: "real \<Rightarrow> real" where
  "radians x = x * pi / 180"

definition haversine_h :: "LatLng \<Rightarrow> LatLng \<Rightarrow> real" where
  "haversine_h a b =
     (let lat1 = radians (fst a); lon1 = radians (snd a);
          lat2 = radians (fst b); lon2 = radians (snd b);
          dlat = lat2 - lat1; dlon = lon2 - lon1
      in (sin (dlat / 2))\<^sup>2 + cos lat1 * cos lat2 * (sin (dlon / 2))\<^sup>2)"

definition haversine_miles :: "LatLng \<Rightarrow> LatLng \<Rightarrow> real" where
  "haversine_miles a b =
     (let R = 6371; km = 2 * R * arcsin (sqrt (haversine_h a b))
      in km * MILES_PER_KM)"

subsection \<open>Time-window codec\<close>

text \<open>\<open>str.isspace\<close> on the ASCII range.\<close>

definition is_space :: "char \<Rightarrow> bool" where
  "is_space c = (c = CHR '' '' \<or> (9 \<le> (of_char c :: nat) \<and> (of_char c :: nat) \<le> 13)
                 \<or> (28 \<le> (of_char c :: nat) \<and> (of_char c :: nat) \<le> 31))"

definition py_strip :: "string \<Rightarrow> string" where
  "py_strip s = rev (dropWhile is_space (rev (dropWhile is_space s)))"

definition lower_char :: "char \<Rightarrow> char" where
  "lower_char c =
     (if 65 \<le> (of_char c :: nat) \<and> (of_char c :: nat) \<le> 90
      then char_of ((of_char c :: nat) + 32) else c)"

definition py_lower :: "string \<Rightarrow> string" where
  "py_lower s = map lower_char s"

text \<open>\<open>s.split(sep)\<close> for a one-character separator.\<close>

fun py_split :: "char \<Rightarrow> string \<Rightarrow> string list" where
  "py_split sep [] = [[]]"
| "py_split sep (c # cs) =
     (if c = sep then [] # py_split sep cs
      else (case py_split sep cs of
              [] \<Rightarrow> [[c]]
            | r # rs \<Rightarrow> (c # r) # rs))"

definition is_digit :: "char \<Rightarrow> bool" where
  "is_digit c = (48 \<le> (of_char c :: nat) \<and> (of_char c :: nat) \<le> 57)"

definition digit_val :: "char \<Rightarrow> int" where
  "digit_val c = int (of_char c) - 48"

text \<open>The digits of an integer literal: groups of decimal digits, single underscores
  between them.\<close>

definition py_digits :: "string \<Rightarrow> error + int" where
  "py_digits s =
     (let groups = py_split (CHR ''_'') s
      in if list_all (\<lambda>g. g \<noteq> [] \<and> list_all is_digit g) groups
         then Inr (foldl (\<lambda>acc c. 10 * acc + digit_val c) 0 (concat groups))
         else Inl ValueError)"

text \<open>\<open>int(s)\<close> of a string: surrounding whitespace, an optional sign, the digits.\<close>

definition py_int :: "string \<Rightarrow> error + int" where
  "py_int s =
     (case py_strip s of
        [] \<Rightarrow> Inl ValueError
      | c # cs \<Rightarrow>
          if c = CHR ''-'' then map_sum id uminus (py_digits cs)
          else if c = CHR ''+'' then py_digits cs
          else py_digits (c # cs))"

text \<open>
  \<open>parse_hhmm\<close>: \<open>None\<close> for an absent, empty, blank or "nan" string; otherwise the
  string is split at the colons, the unpacking \<open>hh, mm = ...\<close> wants exactly two
  parts, and both go through \<open>int\<close>. Each failure is a \<open>ValueError\<close>.
\<close>

definition parse_hhmm :: "string option \<Rightarrow> error + int option" where
  "parse_hhmm hhmm =
     (case hhmm of
        None \<Rightarrow> Inr None
      | Some s \<Rightarrow>
          if s = [] \<or> py_strip s = [] \<or> py_lower s = ''nan'' then Inr None
          else (case py_split (CHR '':'') s of
                  [hh, mm] \<Rightarrow>
                    (case py_int hh of
                       Inl e \<Rightarrow> Inl e
                     | Inr h \<Rightarrow>
                         (case py_int mm of
                            Inl e \<Rightarrow> Inl e
                          | Inr m \<Rightarrow> Inr (Some (h * 60 + m))))
                | _ \<Rightarrow> Inl ValueError))"

subsection \<open>Greedy fallback router\<close>

text \<open>
  One pass of the \<open>for i, s in enumerate(stops)\<close> scan. The pair
  \<open>(best_idx, best_dist)\<close> is \<open>None\<close> while it still is \<open>(None, inf)\<close>: every real
  distance is below \<open>inf\<close>, so the first unvisited stop is always taken.
\<close>

definition scan_step :: "LatLng \<Rightarrow> nat set \<Rightarrow> nat \<times> Stop \<Rightarrow> (nat \<times> real) option \<Rightarrow> (nat \<times> real) option" where
  "scan_step cur visited p best =
     (let i = fst p; s = snd p
      in if i \<in> visited then best
         else (let d = haversine_miles cur (coords s)
               in case best of
                    None \<Rightarrow> Some (i, d)
                  | Some (best_idx, best_dist) \<Rightarrow>
                      if d < best_dist then Some (i, d) else Some (best_idx, best_dist)))"

definition nearest_unvisited :: "LatLng \<Rightarrow> Stop list \<Rightarrow> nat set \<Rightarrow> (nat \<times> real) option" where
  "nearest_unvisited cur stops visited =
     fold (scan_step cur visited) (enumerate 0 stops) None"

lemma fold_scan_step_Some:
  "fold (scan_step cur visited) ps best = Some (i, d) \<Longrightarrow>
     best = Some (i, d) \<or> (i \<in> fst ` set ps \<and> i \<notin> visited)"
proof (induction ps arbitrary: best)
  case Nil
  then show ?case by simp
next
  case (Cons p ps)
  from Cons.prems have "fold (scan_step cur visited) ps (scan_step cur visited p best) = Some (i, d)"
    by simp
  from Cons.IH [OF this] show ?case
    by (auto simp: scan_step_def Let_def split: if_splits option.splits prod.splits)
qed

lemma nearest_unvisited_Some:
  assumes "nearest_unvisited cur stops visited = Some (i, d)"
  shows "i < length stops \<and> i \<notin> visited"
proof -
  from fold_scan_step_Some [OF assms [unfolded nearest_unvisited_def]]
  have "i \<in> fst ` set (enumerate 0 stops)" and "i \<notin> visited" by auto
  then show ?thesis by (auto simp: in_set_enumerate_eq)
qed

text \<open>
  The \<open>while len(visited) < len(stops)\<close> loop of \<open>_greedy_order\<close>. With no best index
  the code would add \<open>None\<close> to the order and fail at \<open>stops[best_idx]\<close>.
\<close>

function greedy_loop :: "Stop list \<Rightarrow> nat set \<Rightarrow> nat list \<Rightarrow> LatLng \<Rightarrow> error + nat list" where
  "greedy_loop stops visited order cur =
     (if card visited < length stops then
        (case nearest_unvisited cur stops visited of
           None \<Rightarrow> Inl TypeError
         | Some (best_idx, best_dist) \<Rightarrow>
             greedy_loop stops (insert best_idx visited) (order @ [best_idx])
               (coords (stops ! best_idx)))
      else Inr order)"
  by pat_completeness auto
termination
proof (relation "measure (\<lambda>(stops, visited, order, cur). card ({..<length stops} - visited))")
  show "wf (measure (\<lambda>(stops, visited, order, cur). card ({..<length stops} - visited)))"
    by simp
next
  fix stops :: "Stop list" and visited :: "nat set" and order :: "nat list" and cur :: LatLng
    and x2 :: "nat \<times> real" and best_idx :: nat and best_dist :: real
  assume "nearest_unvisited cur stops visited = Some x2" and "(best_idx, best_dist) = x2"
  then have "best_idx < length stops" and "best_idx \<notin> visited"
    using nearest_unvisited_Some [of cur stops visited best_idx best_dist] by auto
  then have "{..<length stops} - insert best_idx visited \<subset> {..<length stops} - visited"
    by auto
  then have "card ({..<length stops} - insert best_idx visited) < card ({..<length stops} - visited)"
    by (intro psubset_card_mono) auto
  then show "((stops, insert best_idx visited, order @ [best_idx], coords (stops ! best_idx)),
              (stops, visited, order, cur))
             \<in> measure (\<lambda>(stops, visited, order, cur). card ({..<length stops} - visited))"
    by simp
qed

declare greedy_loop.simps [simp del]

definition greedy_order :: "LatLng \<Rightarrow> Stop list \<Rightarrow> error + nat list" where
  "greedy_order depot stops = greedy_loop stops {} [] depot"

text \<open>
  \<open>buckets[idx % len(buckets)].append(s_idx)\<close> over \<open>enumerate(order)\<close>, from
  \<open>max(1, vehicle_count)\<close> empty buckets.
\<close>

definition bucket_step :: "nat \<times> nat \<Rightarrow> nat list list \<Rightarrow> nat list list" where
  "bucket_step p buckets =
     (let idx = fst p; s_idx = snd p; k = idx mod length buckets
      in buckets[k := buckets ! k @ [s_idx]])"

definition greedy_buckets :: "nat list \<Rightarrow> int \<Rightarrow> nat list list" where
  "greedy_buckets order vehicle_count =
     fold bucket_step (enumerate 0 order) (replicate (nat (max 1 vehicle_count)) [])"

text \<open>The inner \<open>for idx in b\<close> loop: the running total, the position, the vehicle's route.\<close>

definition visit_step :: "Stop list \<Rightarrow> nat \<Rightarrow> real \<times> LatLng \<times> route_entry list \<Rightarrow> real \<times> LatLng \<times> route_entry list" where
  "visit_step stops idx st =
     (case st of (tot, cur, vehicle) \<Rightarrow>
        (let s = stops ! idx
         in (tot + haversine_miles cur (coords s), coords s, vehicle @ [stop_entry s])))"

text \<open>The outer \<open>for b in buckets\<close> loop: the routes so far and the running total.\<close>

definition bucket_walk :: "LatLng \<Rightarrow> Stop list \<Rightarrow> nat list \<Rightarrow> route_entry list list \<times> real \<Rightarrow> route_entry list list \<times> real" where
  "bucket_walk depot stops b st =
     (case st of (routes_acc, tot) \<Rightarrow>
        (case fold (visit_step stops) b (tot, depot, []) of
           (tot', cur, vehicle) \<Rightarrow>
             (if vehicle \<noteq> [] then routes_acc @ [vehicle] else routes_acc,
              tot' + haversine_miles cur depot)))"

text \<open>The \<open>if engine == "greedy-fallback"\<close> block: the routes and \<open>total_miles\<close>.\<close>

definition greedy_fallback :: "LatLng \<Rightarrow> Stop list \<Rightarrow> int \<Rightarrow> error + route_entry list list \<times> real" where
  "greedy_fallback depot stops vehicle_count =
     (case greedy_order depot stops of
        Inl e \<Rightarrow> Inl e
      | Inr order \<Rightarrow>
          (case fold (bucket_walk depot stops) (greedy_buckets order vehicle_count) ([], 0) of
             (routes_acc, tot) \<Rightarrow> Inr (routes_acc, py_round2 tot)))"

subsection \<open>Constrained router\<close>

text \<open>
  OR-Tools is not part of the repository. What the code hands to it is collected in a
  record; the library's search is a parameter \<open>solver\<close> that either finds no solution
  or gives, for every vehicle \<open>v\<close>, the nodes met by the walk from \<open>routing.Start(v)\<close>
  along \<open>NextVar\<close> up to the end index. The slack of 30 minutes, the horizon and the
  search parameters are constants of the code and are left out of the record.
\<close>

record routing_model =
  num_nodes :: nat
  num_vehicles :: int
  arc_cost :: "int list list"
  node_demands :: "int list"
  vehicle_capacities :: "int list"
  travel_minutes :: "int list list"
  time_windows :: "(int \<times> int) list"

type_synonym solution = "nat \<Rightarrow> nat list"

definition AVG_MPH :: real where
  "AVG_MPH = 20"

definition horizon :: int where
  "horizon = 24 * 60"

text \<open>\<open>dist_mmile\<close>: zero where \<open>i == j\<close>, else \<open>int(round(miles * 1000))\<close>.\<close>

definition dist_mmile :: "Stop list \<Rightarrow> int list list" where
  "dist_mmile points =
     map (\<lambda>i. map (\<lambda>j. if i = j then 0
                         else py_round (haversine_miles (coords (points ! i)) (coords (points ! j)) * 1000))
                 [0..<length points])
         [0..<length points]"

text \<open>\<open>travel_time_callback\<close> on a cell of the matrix.\<close>

definition travel_time :: "int \<Rightarrow> int" where
  "travel_time mmiles = py_trunc ((of_int mmiles / 1000) / (AVG_MPH / 60))"

text \<open>\<open>x or d\<close> for an optional integer \<open>x\<close>: \<open>None\<close> and \<open>0\<close> are both falsy.\<close>

definition or_default :: "int option \<Rightarrow> int \<Rightarrow> int" where
  "or_default x d = (case x of None \<Rightarrow> d | Some v \<Rightarrow> if v = 0 then d else v)"

text \<open>The range set on a node's cumulative time; the depot is node 0 of \<open>points\<close> and
  carries \<open>depot_tw_start\<close> and \<open>depot_tw_end\<close>.\<close>

definition node_window :: "Stop \<Rightarrow> error + int \<times> int" where
  "node_window p =
     (case parse_hhmm (stop_tw_start p) of
        Inl e \<Rightarrow> Inl e
      | Inr a \<Rightarrow>
          (case parse_hhmm (stop_tw_end p) of
             Inl e \<Rightarrow> Inl e
           | Inr b \<Rightarrow> Inr (or_default a 0, or_default b horizon)))"

fun node_windows :: "Stop list \<Rightarrow> error + (int \<times> int) list" where
  "node_windows [] = Inr []"
| "node_windows (p # ps) =
     (case node_window p of
        Inl e \<Rightarrow> Inl e
      | Inr w \<Rightarrow>
          (case node_windows ps of
             Inl e \<Rightarrow> Inl e
           | Inr ws \<Rightarrow> Inr (w # ws)))"

definition depot_point :: "LatLng \<Rightarrow> string option \<Rightarrow> string option \<Rightarrow> Stop" where
  "depot_point depot depot_tw_start depot_tw_end =
     (''depot'', fst depot, snd depot, Some ''Depot'', 0, depot_tw_start, depot_tw_end)"

definition build_model :: "Stop list \<Rightarrow> int \<Rightarrow> int \<Rightarrow> (int \<times> int) list \<Rightarrow> routing_model" where
  "build_model points vehicle_count vehicle_capacity windows =
     \<lparr>num_nodes = length points,
      num_vehicles = vehicle_count,
      arc_cost = dist_mmile points,
      node_demands = 0 # map (\<lambda>s. max 0 (stop_demand s)) (tl points),
      vehicle_capacities = replicate (nat vehicle_count) (max 1 vehicle_capacity),
      travel_minutes = map (map travel_time) (dist_mmile points),
      time_windows = windows\<rparr>"

text \<open>
  The \<open>while not routing.IsEnd(index)\<close> walk of one vehicle over the nodes the
  solution gives: \<open>prev\<close>, the vehicle's route and \<open>total_mmiles\<close>.
\<close>

fun route_of_nodes :: "Stop list \<Rightarrow> int list list \<Rightarrow> nat list \<Rightarrow> nat \<Rightarrow> route_entry list \<Rightarrow> int \<Rightarrow> error + nat \<times> route_entry list \<times> int" where
  "route_of_nodes points dm [] prev vehicle_route total_mmiles =
     Inr (prev, vehicle_route, total_mmiles)"
| "route_of_nodes points dm (node # nodes) prev vehicle_route total_mmiles =
     (if node \<noteq> 0 then
        (if node < length points
         then route_of_nodes points dm nodes node
                (vehicle_route @ [stop_entry (points ! node)])
                (total_mmiles + dm ! prev ! node)
         else Inl IndexError)
      else route_of_nodes points dm nodes prev vehicle_route total_mmiles)"

text \<open>The \<open>for v in range(vehicle_count)\<close> loop around it.\<close>

fun collect_routes :: "Stop list \<Rightarrow> int list list \<Rightarrow> solution \<Rightarrow> nat list \<Rightarrow> route_entry list list \<Rightarrow> int \<Rightarrow> error + route_entry list list \<times> int" where
  "collect_routes points dm sol [] routes_acc total_mmiles = Inr (routes_acc, total_mmiles)"
| "collect_routes points dm sol (v # vs) routes_acc total_mmiles =
     (case route_of_nodes points dm (sol v) 0 [] total_mmiles of
        Inl e \<Rightarrow> Inl e
      | Inr (prev, vehicle_route, total_mmiles') \<Rightarrow>
          collect_routes points dm sol vs
            (if vehicle_route \<noteq> [] then routes_acc @ [vehicle_route] else routes_acc)
            (total_mmiles' + dm ! prev ! 0))"

text \<open>
  The \<open>if HAVE_OR_TOOLS\<close> block: \<open>Inr None\<close> when the solver finds nothing, else the
  routes and \<open>total_miles\<close>.
\<close>

definition constrained_router :: "(routing_model \<Rightarrow> solution option) \<Rightarrow> LatLng \<Rightarrow> Stop list \<Rightarrow> int \<Rightarrow> int \<Rightarrow> string option \<Rightarrow> string option \<Rightarrow> error + (route_entry list list \<times> real) option" where
  "constrained_router solver depot stops vehicle_count vehicle_capacity depot_tw_start depot_tw_end =
     (let points = depot_point depot depot_tw_start depot_tw_end # stops
      in case node_windows points of
           Inl e \<Rightarrow> Inl e
         | Inr windows \<Rightarrow>
             (case solver (build_model points vehicle_count vehicle_capacity windows) of
                None \<Rightarrow> Inr None
              | Some sol \<Rightarrow>
                  (case collect_routes points (dist_mmile points) sol [0..<nat vehicle_count] [] 0 of
                     Inl e \<Rightarrow> Inl e
                   | Inr (routes_acc, total_mmiles) \<Rightarrow>
                       Inr (Some (routes_acc, py_round2 (of_int total_mmiles / 1000))))))"

subsection \<open>Routing orchestrator\<close>

text \<open>The baseline: depot, the stops in input order, depot.\<close>

definition baseline_step :: "Stop \<Rightarrow> real \<times> LatLng \<Rightarrow> real \<times> LatLng" where
  "baseline_step s st =
     (case st of (baseline, cur) \<Rightarrow> (baseline + haversine_miles cur (coords s), coords s))"

definition baseline_walk :: "LatLng \<Rightarrow> Stop list \<Rightarrow> real" where
  "baseline_walk depot stops =
     (case fold baseline_step stops (0, depot) of
        (baseline, cur) \<Rightarrow> baseline + haversine_miles cur depot)"

text \<open>The tail of \<open>optimize_routes\<close>, from \<open>baseline = 0.0\<close> on.\<close>

definition finish :: "LatLng \<Rightarrow> Stop list \<Rightarrow> string \<Rightarrow> route_entry list list \<Rightarrow> real \<Rightarrow> string option \<Rightarrow> routing_result" where
  "finish depot stops eng routes_acc tot note_opt =
     (let baseline = py_round2 (baseline_walk depot stops);
          savings = (if 0 < baseline then py_round2 ((baseline - tot) / baseline * 100) else 0)
      in \<lparr>engine = eng, routes = routes_acc, total_miles = tot,
          baseline_miles = baseline, savings_pct = savings, result_note = note_opt\<rparr>)"

text \<open>
  \<open>optimize_routes\<close>. The module constant \<open>HAVE_OR_TOOLS\<close> and the library's search
  are the first two arguments.
\<close>

definition optimize_routes :: "bool \<Rightarrow> (routing_model \<Rightarrow> solution option) \<Rightarrow> LatLng \<Rightarrow> Stop list \<Rightarrow> int \<Rightarrow> int \<Rightarrow> string option \<Rightarrow> string option \<Rightarrow> error + routing_result" where
  "optimize_routes HAVE_OR_TOOLS solver depot stops vehicle_count vehicle_capacity depot_tw_start depot_tw_end =
     (if length stops = 0 then
        Inr \<lparr>engine = ''none'', routes = [], total_miles = 0, baseline_miles = 0,
             savings_pct = 0, result_note = Some ''no stops''\<rparr>
      else
        (case (if HAVE_OR_TOOLS
               then constrained_router solver depot stops vehicle_count vehicle_capacity
                      depot_tw_start depot_tw_end
               else Inr None) of
           Inl e \<Rightarrow> Inl e
         | Inr (Some (routes_acc, tot)) \<Rightarrow>
             Inr (finish depot stops ''ortools'' routes_acc tot None)
         | Inr None \<Rightarrow>
             (case greedy_fallback depot stops vehicle_count of
                Inl e \<Rightarrow> Inl e
              | Inr (routes_acc, tot) \<Rightarrow>
                  Inr (finish depot stops ''greedy-fallback'' routes_acc tot
                        (Some (if HAVE_OR_TOOLS
                               then ''No feasible OR-Tools solution found; using greedy fallback.''
                               else ''Install OR-Tools to enforce capacity/time windows exactly.''))))))"

section \<open>Properties\<close>

subsection \<open>Geodesy in exact arithmetic\<close>

lemma cos_cos_split:
  fixes a b :: real
  shows "cos a * cos b = (cos ((a + b) / 2))\<^sup>2 - (sin ((b - a) / 2))\<^sup>2"
proof -
  have "cos (2 * ((a + b) / 2)) = 2 * (cos ((a + b) / 2))\<^sup>2 - 1"
    by (rule cos_double_cos)
  moreover have "2 * ((a + b) / 2) = a + b" by simp
  ultimately have 1: "cos (a + b) = 2 * (cos ((a + b) / 2))\<^sup>2 - 1"
    by (simp only:)
  have "cos (2 * ((b - a) / 2)) = 1 - 2 * (sin ((b - a) / 2))\<^sup>2"
    by (rule cos_double_sin)
  moreover have "2 * ((b - a) / 2) = b - a" by simp
  ultimately have 2: "cos (b - a) = 1 - 2 * (sin ((b - a) / 2))\<^sup>2"
    by (simp only:)
  have "cos a * cos b = (cos (b - a) + cos (a + b)) / 2"
    by (simp add: cos_add cos_diff)
  then show ?thesis using 1 2 by simp
qed

lemma convex_unit:
  fixes A B t :: real
  assumes "0 \<le> A" "A \<le> 1" "0 \<le> B" "B \<le> 1" "0 \<le> t" "t \<le> 1"
  shows "0 \<le> A + (B - A) * t \<and> A + (B - A) * t \<le> 1"
proof -
  have eq: "A + (B - A) * t = (1 - t) * A + t * B" by algebra
  have "0 \<le> (1 - t) * A" "0 \<le> t * B" using assms by simp_all
  moreover have "(1 - t) * A \<le> 1 - t" using assms by (simp add: mult_left_le)
  moreover have "t * B \<le> t" using assms by (simp add: mult_left_le)
  ultimately show ?thesis unfolding eq by linarith
qed

lemma sin_sq_unit: "0 \<le> (sin (x::real))\<^sup>2 \<and> (sin x)\<^sup>2 \<le> 1"
  by (simp add: abs_square_le_1)

lemma cos_sq_unit: "0 \<le> (cos (x::real))\<^sup>2 \<and> (cos x)\<^sup>2 \<le> 1"
  by (simp add: abs_square_le_1)

lemma haversine_h_range: "0 \<le> haversine_h a b \<and> haversine_h a b \<le> 1"
proof -
  define la where "la = radians (fst a)"
  define lb where "lb = radians (fst b)"
  define t where "t = (sin ((radians (snd b) - radians (snd a)) / 2))\<^sup>2"
  define A where "A = (sin ((lb - la) / 2))\<^sup>2"
  define B where "B = (cos ((la + lb) / 2))\<^sup>2"
  have h: "haversine_h a b = A + (B - A) * t"
    unfolding haversine_h_def Let_def A_def B_def t_def la_def lb_def
    using cos_cos_split [of "radians (fst a)" "radians (fst b)"] by simp
  show ?thesis unfolding h
    by (rule convex_unit) (simp_all add: A_def B_def t_def abs_square_le_1)
qed

lemma haversine_miles_nonneg: "0 \<le> haversine_miles a b"
proof -
  have "0 \<le> sqrt (haversine_h a b)" "sqrt (haversine_h a b) \<le> 1"
    using haversine_h_range [of a b] by simp_all
  then have "0 \<le> arcsin (sqrt (haversine_h a b))"
    by (intro arcsin_nonneg) simp
  then show ?thesis by (simp add: haversine_miles_def MILES_PER_KM_def Let_def)
qed

lemma haversine_miles_same: "haversine_miles a a = 0"
  by (simp add: haversine_miles_def haversine_h_def Let_def)

lemma pi_ge_3: "3 \<le> pi"
proof -
  have "sin (pi / 6) \<le> pi / 6" by (intro sin_x_le_x) simp
  then show ?thesis by (simp add: sin_30)
qed

lemma haversine_miles_equator:
  assumes "\<bar>y - x\<bar> \<le> 180"
  shows "haversine_miles (0, x) (0, y) = 2 * 6371 * (\<bar>y - x\<bar> * pi / 360) * MILES_PER_KM"
proof -
  define u where "u = (radians y - radians x) / 2"
  have u: "u = (y - x) * pi / 360" by (simp add: u_def radians_def field_simps)
  have au: "\<bar>u\<bar> = \<bar>y - x\<bar> * pi / 360" by (simp add: u abs_mult)
  have "\<bar>u\<bar> \<le> 180 * pi / 360" unfolding au using assms by (simp add: field_simps)
  then have b: "\<bar>u\<bar> \<le> pi / 2" by simp
  have h: "haversine_h (0, x) (0, y) = (sin u)\<^sup>2"
    by (simp add: haversine_h_def Let_def u_def radians_def)
  have "sqrt ((sin u)\<^sup>2) = sin \<bar>u\<bar>"
  proof (cases "0 \<le> u")
    case True
    then have "0 \<le> sin u" using b by (intro sin_ge_zero) (simp_all add: abs_if, linarith?)
    then show ?thesis using True by simp
  next
    case False
    then have "0 \<le> sin (- u)" using b pi_ge_two by (intro sin_ge_zero) (simp_all add: abs_if)
    then show ?thesis using False by (simp add: abs_if)
  qed
  moreover have "arcsin (sin \<bar>u\<bar>) = \<bar>u\<bar>"
    using b by (intro arcsin_sin) simp_all
  ultimately have "arcsin (sqrt (haversine_h (0, x) (0, y))) = \<bar>y - x\<bar> * pi / 360"
    by (simp only: h au)
  then show ?thesis
    by (simp only: haversine_miles_def Let_def)
qed

lemma py_round_lt_half: "0 \<le> x \<Longrightarrow> x < 1 / 2 \<Longrightarrow> py_round x = 0"
proof -
  assume a: "0 \<le> x" "x < 1 / 2"
  then have "\<lfloor>x\<rfloor> = 0" by linarith
  then show ?thesis using a by (simp add: py_round_def Let_def)
qed

lemma py_round_one: "1 / 2 < x \<Longrightarrow> x < 3 / 2 \<Longrightarrow> py_round x = 1"
proof -
  assume a: "1 / 2 < x" "x < 3 / 2"
  show ?thesis
  proof (cases "x < 1")
    case True
    then have "\<lfloor>x\<rfloor> = 0" using a by linarith
    then show ?thesis using a by (simp add: py_round_def Let_def)
  next
    case False
    then have "\<lfloor>x\<rfloor> = 1" using a by linarith
    then show ?thesis using a by (simp add: py_round_def Let_def)
  qed
qed

subsection \<open>The nearest-neighbour tour\<close>

text \<open>
  The selection rule in the words of the design: \<open>i\<close> is an unvisited stop, no unvisited
  stop is nearer to the current position, and every unvisited stop earlier in the
  input is strictly farther.
\<close>

definition nearest_first :: "LatLng \<Rightarrow> Stop list \<Rightarrow> nat set \<Rightarrow> nat \<Rightarrow> bool" where
  "nearest_first cur stops visited i \<longleftrightarrow>
     i < length stops \<and> i \<notin> visited \<and>
     (\<forall>j < length stops. j \<notin> visited \<longrightarrow>
        haversine_miles cur (coords (stops ! i)) \<le> haversine_miles cur (coords (stops ! j)) \<and>
        (j < i \<longrightarrow> haversine_miles cur (coords (stops ! i)) < haversine_miles cur (coords (stops ! j))))"

definition scan_inv :: "LatLng \<Rightarrow> Stop list \<Rightarrow> nat set \<Rightarrow> (nat \<times> real) option \<Rightarrow> bool" where
  "scan_inv cur stops visited best =
     (case best of
        None \<Rightarrow> \<forall>j < length stops. j \<in> visited
      | Some (i, d) \<Rightarrow> d = haversine_miles cur (coords (stops ! i)) \<and> nearest_first cur stops visited i)"

lemma nearest_unvisited_snoc:
  "nearest_unvisited cur (stops @ [s]) visited =
     scan_step cur visited (length stops, s) (nearest_unvisited cur stops visited)"
  by (simp add: nearest_unvisited_def enumerate_append_eq)

lemma scan_inv_step:
  assumes "scan_inv cur stops visited best"
  shows "scan_inv cur (stops @ [s]) visited (scan_step cur visited (length stops, s) best)"
proof (cases "length stops \<in> visited")
  case True
  then show ?thesis using assms
    by (auto simp: scan_inv_def scan_step_def nearest_first_def less_Suc_eq nth_append
             split: option.splits)
next
  case False
  show ?thesis
  proof (cases best)
    case None
    then show ?thesis using assms False
      by (auto simp: scan_inv_def scan_step_def nearest_first_def less_Suc_eq nth_append Let_def)
  next
    case (Some p)
    obtain i d where p: "p = (i, d)" by (cases p)
    show ?thesis using assms False unfolding Some p
      by (auto simp: scan_inv_def scan_step_def nearest_first_def less_Suc_eq nth_append Let_def)
  qed
qed

lemma scan_inv_nearest_unvisited: "scan_inv cur stops visited (nearest_unvisited cur stops visited)"
proof (induction stops rule: rev_induct)
  case Nil
  then show ?case by (simp add: nearest_unvisited_def scan_inv_def)
next
  case (snoc s stops)
  then show ?case by (simp only: nearest_unvisited_snoc scan_inv_step)
qed


definition tour_position :: "LatLng \<Rightarrow> Stop list \<Rightarrow> nat list \<Rightarrow> nat \<Rightarrow> LatLng" where
  "tour_position depot stops order k =
     (if k = 0 then depot else coords (stops ! (order ! (k - 1))))"

definition nearest_neighbour_tour :: "LatLng \<Rightarrow> Stop list \<Rightarrow> nat list \<Rightarrow> bool" where
  "nearest_neighbour_tour depot stops order \<longleftrightarrow>
     length order = length stops \<and>
     (\<forall>k < length stops.
        nearest_first (tour_position depot stops order k) stops (set (take k order)) (order ! k))"

lemma nearest_unvisited_cases:
  "(nearest_unvisited cur stops visited = None \<and> (\<forall>j < length stops. j \<in> visited)) \<or>
   (\<exists>i d. nearest_unvisited cur stops visited = Some (i, d) \<and> nearest_first cur stops visited i)"
  using scan_inv_nearest_unvisited [of cur stops visited]
  by (auto simp: scan_inv_def split: option.splits)

lemma visited_all:
  assumes "visited \<subseteq> {..<n}" "\<not> card visited < n"
  shows "visited = {..<n}"
proof -
  have "card {..<n} \<le> card visited" using assms(2) by simp
  then show ?thesis using assms(1) by (intro card_seteq) simp_all
qed

lemma greedy_loop_tour:
  assumes "distinct order" "set order = visited" "visited \<subseteq> {..<length stops}"
    and "cur = tour_position depot stops order (length order)"
  shows "\<exists>order'. greedy_loop stops visited order cur = Inr order' \<and>
           distinct order' \<and> set order' = {..<length stops} \<and>
           take (length order) order' = order \<and>
           (\<forall>k. length order \<le> k \<and> k < length stops \<longrightarrow>
              nearest_first (tour_position depot stops order' k) stops (set (take k order')) (order' ! k))"
  using assms
proof (induction stops visited order cur rule: greedy_loop.induct)
  case (1 stops visited order cur)
  show ?case
  proof (cases "card visited < length stops")
    case False
    with "1.prems"(3) have all: "visited = {..<length stops}" by (rule visited_all)
    have "length order = card (set order)" using "1.prems"(1) by (simp add: distinct_card)
    then have len: "length order = length stops" using all "1.prems"(2) by simp
    have res: "greedy_loop stops visited order cur = Inr order"
      using False by (simp add: greedy_loop.simps [of stops visited order cur])
    have full: "set order = {..<length stops}" using all "1.prems"(2) by simp
    have none: "\<forall>k. length order \<le> k \<and> k < length stops \<longrightarrow>
              nearest_first (tour_position depot stops order k) stops (set (take k order)) (order ! k)"
    proof (intro allI impI)
      fix k assume "length order \<le> k \<and> k < length stops"
      then have False using len by linarith
      then show "nearest_first (tour_position depot stops order k) stops (set (take k order)) (order ! k)"
        by simp
    qed
    show ?thesis
      using res "1.prems"(1) full none by (intro exI [of _ order]) simp
  next
    case True
    have "\<not> (\<forall>j < length stops. j \<in> visited)"
    proof
      assume "\<forall>j < length stops. j \<in> visited"
      then have "{..<length stops} \<subseteq> visited" by auto
      then have "card {..<length stops} \<le> card visited"
        using "1.prems"(1,2) by (intro card_mono) auto
      then show False using True by simp
    qed
    then obtain i d where near: "nearest_unvisited cur stops visited = Some (i, d)"
      and nf: "nearest_first cur stops visited i"
      using nearest_unvisited_cases [of cur stops visited] by blast
    from nf have i: "i < length stops" "i \<notin> visited" by (simp_all add: nearest_first_def)
    have step: "greedy_loop stops visited order cur =
                  greedy_loop stops (insert i visited) (order @ [i]) (coords (stops ! i))"
      using True near by (simp add: greedy_loop.simps [of stops visited order cur])
    have p1: "distinct (order @ [i])" using "1.prems"(1,2) i by simp
    have p2: "set (order @ [i]) = insert i visited" using "1.prems"(2) by simp
    have p3: "insert i visited \<subseteq> {..<length stops}" using "1.prems"(3) i by simp
    have p4: "coords (stops ! i) = tour_position depot stops (order @ [i]) (length (order @ [i]))"
      by (simp add: tour_position_def)
    from "1.IH" [OF True near refl p1 p2 p3 p4]
    obtain order' where o: "greedy_loop stops (insert i visited) (order @ [i]) (coords (stops ! i)) = Inr order'"
      "distinct order'" "set order' = {..<length stops}"
      "take (length (order @ [i])) order' = order @ [i]"
      and rest: "\<forall>k. length (order @ [i]) \<le> k \<and> k < length stops \<longrightarrow>
              nearest_first (tour_position depot stops order' k) stops (set (take k order')) (order' ! k)"
      by blast
    have o4: "take (Suc (length order)) order' = order @ [i]" using o(4) by simp
    have "length (take (Suc (length order)) order') = Suc (length order)"
      by (simp only: o4 length_append_singleton)
    then have lo: "length order < length order'" by simp
    have "take (length order) (take (Suc (length order)) order') = take (length order) order'"
      by (simp add: min_def)
    then have tk: "take (length order) order' = order" by (simp only: o4) simp
    have "take (Suc (length order)) order' ! length order = order' ! length order"
      by simp
    then have nth: "order' ! length order = i" by (simp only: o4) simp
    have pre: "\<And>j. j < length order \<Longrightarrow> order' ! j = order ! j"
    proof -
      fix j assume "j < length order"
      then have "take (length order) order' ! j = order' ! j" by simp
      then show "order' ! j = order ! j" by (simp only: tk)
    qed
    have pos: "tour_position depot stops order' (length order) = cur"
      using "1.prems"(4) pre by (simp add: tour_position_def)
    have here: "nearest_first (tour_position depot stops order' (length order)) stops
                  (set (take (length order) order')) (order' ! length order)"
      using nf by (simp add: pos tk nth "1.prems"(2))
    have "\<forall>k. length order \<le> k \<and> k < length stops \<longrightarrow>
              nearest_first (tour_position depot stops order' k) stops (set (take k order')) (order' ! k)"
    proof (intro allI impI)
      fix k assume k: "length order \<le> k \<and> k < length stops"
      show "nearest_first (tour_position depot stops order' k) stops (set (take k order')) (order' ! k)"
      proof (cases "k = length order")
        case True
        then show ?thesis using here by simp
      next
        case False
        then have "length (order @ [i]) \<le> k \<and> k < length stops" using k by simp
        then show ?thesis using rest by blast
      qed
    qed
    then show ?thesis using step o(1,2,3) tk by (intro exI [of _ order']) simp
  qed
qed

lemma greedy_order_tour:
  "\<exists>order. greedy_order depot stops = Inr order \<and> distinct order \<and>
     set order = {..<length stops} \<and> nearest_neighbour_tour depot stops order"
proof -
  have "tour_position depot stops [] (length ([]::nat list)) = depot"
    by (simp add: tour_position_def)
  with greedy_loop_tour [of "[]" "{}" stops depot depot]
  obtain order where o: "greedy_loop stops {} [] depot = Inr order" "distinct order"
    "set order = {..<length stops}"
    "\<forall>k. k < length stops \<longrightarrow>
        nearest_first (tour_position depot stops order k) stops (set (take k order)) (order ! k)"
    by auto
  have "length order = card (set order)" using o(2) by (simp add: distinct_card)
  then have "length order = length stops" using o(3) by simp
  then show ?thesis using o by (auto simp: greedy_order_def nearest_neighbour_tour_def)
qed

subsection \<open>Time-window codec\<close>

text \<open>
  C7: \<open>parse("08:00")\<close> is 480; \<open>parse(None)\<close>, \<open>parse("")\<close> and \<open>parse("nan")\<close> are
  \<open>None\<close>; \<open>parse("8:5")\<close> is 485, so no zero padding is needed and the value is
  \<open>hour * 60 + minute\<close>.
\<close>

theorem parse_hhmm_examples:
  "parse_hhmm (Some ''08:00'') = Inr (Some 480) \<and>
   parse_hhmm None = Inr None \<and>
   parse_hhmm (Some []) = Inr None \<and>
   parse_hhmm (Some ''nan'') = Inr None \<and>
   parse_hhmm (Some ''8:5'') = Inr (Some (8 * 60 + 5)) \<and>
   parse_hhmm (Some ''8:5'') = Inr (Some 485)"
  by code_simp

subsection \<open>Orchestrator\<close>

text \<open>
  C3: for the empty stop list, whatever the depot, the fleet parameters, the depot's
  time window and the solver, \<open>optimize_routes\<close> returns (no exception) the result with
  engine "none", no routes, and zero total, baseline and savings.
\<close>

theorem optimize_routes_empty:
  "optimize_routes HAVE_OR_TOOLS solver depot [] vehicle_count vehicle_capacity
     depot_tw_start depot_tw_end =
   Inr \<lparr>engine = ''none'', routes = [], total_miles = 0, baseline_miles = 0,
        savings_pct = 0, result_note = Some ''no stops''\<rparr>"
  by (simp add: optimize_routes_def)

end
